theory Spec2Isabelle
  imports Main
begin

section \<open>JavaScript values the sink inspects\<close>

text \<open>
  The sink tests option values for truthiness, compares one of them with \<open>false\<close> by
  strict inequality, asks for the \<open>typeof\<close> another and splices values into strings.
  \<open>JObject t\<close> stands for any object (an array, an \<open>Error\<close> instance, ...), given by
  the text \<open>t\<close> its conversion to a string yields. Numbers are the integers.
\<close>

datatype jsvalue = JUndefined | JNull | JBool bool | JNum int | JStr string | JObject string

fun truthy :: "jsvalue \<Rightarrow> bool" where
  "truthy JUndefined = False"
| "truthy JNull = False"
| "truthy (JBool b) = b"
| "truthy (JNum n) = (n \<noteq> 0)"
| "truthy (JStr s) = (s \<noteq> [])"
| "truthy (JObject t) = True"

fun typeof :: "jsvalue \<Rightarrow> string" where
  "typeof JUndefined = ''undefined''"
| "typeof JNull = ''object''"
| "typeof (JBool b) = ''boolean''"
| "typeof (JNum n) = ''number''"
| "typeof (JStr s) = ''string''"
| "typeof (JObject t) = ''object''"

fun show_nat :: "nat \<Rightarrow> string" where
  "show_nat n =
     (if n < 10 then [''0123456789'' ! n]
      else show_nat (n div 10) @ [''0123456789'' ! (n mod 10)])"

declare show_nat.simps [simp del]

definition show_int :: "int \<Rightarrow> string" where
  "show_int i = (if i < 0 then ''-'' @ show_nat (nat (- i)) else show_nat (nat i))"

fun js_string :: "jsvalue \<Rightarrow> string" where
  "js_string JUndefined = ''undefined''"
| "js_string JNull = ''null''"
| "js_string (JBool b) = (if b then ''true'' else ''false'')"
| "js_string (JNum n) = show_int n"
| "js_string (JStr s) = s"
| "js_string (JObject t) = t"

text \<open>
  A promise is given by how it settles. \<open>fetch\<close> settles its promise with \<open>Resolved\<close>
  for every HTTP response it receives, whatever the status code, and with \<open>Rejected\<close>
  only when no response arrives (a network failure).
\<close>

datatype 'a promise = Resolved 'a | Rejected jsvalue

record response =
  status :: nat

text \<open>
  The spec's word "non-success response": the \<open>ok\<close> attribute of a response is true
  exactly for the statuses 200 to 299. The sink never reads it.
\<close>

definition response_ok :: "response \<Rightarrow> bool" where
  "response_ok r = (200 \<le> status r \<and> status r \<le> 299)"

section \<open>Events, records on the wire, requests\<close>

text \<open>
  \<open>e.error\<close> is \<open>None\<close> when the event carries no error. Otherwise it says whether
  the value is an instance of \<open>Error\<close> and what its \<open>stack\<close> property holds
  (\<open>None\<close> when that is undefined).
\<close>

record error_value =
  instanceof_Error :: bool
  stack :: "string option"

record LogEvent =
  level :: int
  messageTemplate_raw :: string
  properties :: "string \<rightharpoonup> jsvalue"
  timestamp :: int
  error :: "error_value option"

record syslog =
  appname :: jsvalue
  host :: string
  hostname :: string
  logtail_11993 :: "string \<rightharpoonup> string"

text \<open>\<open>m_level\<close> is \<open>None\<close> when the property holds \<open>undefined\<close>.\<close>

record mappedEvent =
  m_level :: "string option"
  m_message :: string
  m_properties :: "string \<rightharpoonup> jsvalue"
  m_dt :: int
  m_platform :: string
  m_osplatform :: string
  m_syslog :: syslog

record request =
  url :: string
  authorization :: string
  content_type :: string
  http_method :: string
  body :: "string option"

section \<open>The world the sink acts on\<close>

text \<open>
  \<open>localStorage\<close> is the list of its entries in the order \<open>key(i)\<close> enumerates them;
  \<open>console_warnings\<close> and \<open>fetched\<close> log the calls of \<open>console.warn\<close> and of
  \<open>fetch\<close>, oldest first. The store has no quota here: \<open>setItem\<close> always succeeds.
\<close>

record world =
  localStorage :: "(string \<times> string) list"
  console_warnings :: "string list"
  fetched :: "request list"

text \<open>
  What the runtime provides to one call: whether \<open>localStorage\<close> and \<open>console.warn\<close>
  exist, the value of \<open>new Date().getTime()\<close>, the value of
  \<open>Math.floor(Math.random() * 1000000)\<close>, and \<open>JSON.stringify\<close>.
\<close>

record runtime =
  has_localStorage :: bool
  has_console_warn :: bool
  getTime :: int
  random_floor :: nat
  JSON_stringify :: "mappedEvent list \<Rightarrow> string"

fun setItem :: "string \<Rightarrow> string \<Rightarrow> (string \<times> string) list \<Rightarrow> (string \<times> string) list" where
  "setItem k v [] = [(k, v)]"
| "setItem k v ((k', v') # rest) =
     (if k' = k then (k, v) # rest else (k', v') # setItem k v rest)"

definition removeItem :: "string \<Rightarrow> (string \<times> string) list \<Rightarrow> (string \<times> string) list" where
  "removeItem k st = filter (\<lambda>(k', v). k' \<noteq> k) st"

definition getItem :: "string \<Rightarrow> (string \<times> string) list \<Rightarrow> string option" where
  "getItem k st = map_of st k"

text \<open>\<open>key(i)\<close>, read only for \<open>i\<close> below the length of the store.\<close>

definition key_at :: "nat \<Rightarrow> (string \<times> string) list \<Rightarrow> string" where
  "key_at i st = fst (st ! i)"

definition storage_prefix :: string where
  "storage_prefix = ''structured-log-betterstack-sink''"

text \<open>\<open>k.indexOf(p) === 0\<close>: the text \<open>p\<close> occurs in \<open>k\<close> at position 0.\<close>

definition indexOf_is_0 :: "string \<Rightarrow> string \<Rightarrow> bool" where
  "indexOf_is_0 k p = (take (length p) k = p)"

definition namespaced :: "string \<Rightarrow> bool" where
  "namespaced k = indexOf_is_0 k storage_prefix"

definition namespaced_keys :: "(string \<times> string) list \<Rightarrow> string list" where
  "namespaced_keys st = filter namespaced (map fst st)"

section \<open>The sink\<close>

record sink =
  ingestionAddress :: string
  token :: jsvalue
  levelSwitch :: "(int \<Rightarrow> bool) option"
  suppressErrors :: bool
  durable :: bool

text \<open>An option is \<open>None\<close> when the options object has no such property.\<close>

record BetterStackSinkOptions =
  opt_token :: "jsvalue option"
  opt_ingestionUri :: "jsvalue option"
  opt_suppressErrors :: "jsvalue option"
  opt_durable :: "jsvalue option"

definition read_prop :: "jsvalue option \<Rightarrow> jsvalue" where
  "read_prop p = (case p of None \<Rightarrow> JUndefined | Some v \<Rightarrow> v)"

datatype error = Error string

text \<open>A text between single quotes, as the messages of the constructor have them.\<close>

definition quoted :: "string \<Rightarrow> string" where
  "quoted t = [CHR 0x27] @ t @ [CHR 0x27]"

definition levelMapping :: "int \<rightharpoonup> string" where
  "levelMapping =
     [0 \<mapsto> ''none'', 1 \<mapsto> ''critical'', 3 \<mapsto> ''error'', 7 \<mapsto> ''warning'',
      15 \<mapsto> ''info'', 31 \<mapsto> ''debug'', 63 \<mapsto> ''trace'']"

definition mapLogLevel :: "int \<Rightarrow> string option" where
  "mapLogLevel lvl = levelMapping lvl"

definition getAppname :: "(string \<rightharpoonup> jsvalue) \<Rightarrow> jsvalue" where
  "getAppname props =
     (if ''appname'' \<in> dom props then read_prop (props ''appname'') else JStr ''unknown'')"

definition logSuppressedError :: "runtime \<Rightarrow> jsvalue \<Rightarrow> world \<Rightarrow> world" where
  "logSuppressedError rt reason w =
     (if has_console_warn rt
      then w\<lparr>console_warnings := console_warnings w
               @ [''Suppressed error when logging to Betterstack: '' @ js_string reason]\<rparr>
      else w)"

subsection \<open>sendRecord\<close>

text \<open>
  \<open>sendRecord\<close> is the call: it issues the request. \<open>sendRecord_promise\<close> is how the
  promise it returns settles, from how the promise of \<open>fetch\<close> settled: with no \<open>done\<close>
  it is that promise, with one it resolves to what \<open>done\<close> returns for the response.
\<close>

definition post_request :: "sink \<Rightarrow> string option \<Rightarrow> request" where
  "post_request s b =
     \<lparr>url = ingestionAddress s,
      authorization = ''Bearer '' @ js_string (token s),
      content_type = ''application/json'',
      http_method = ''POST'',
      body = b\<rparr>"

text \<open>
  The calls on the platform that the synchronous part of a method makes, kept in the
  order it makes them, and what each does to the world.
\<close>

datatype effect = SetItem string string | Fetch request

fun run_effect :: "world \<Rightarrow> effect \<Rightarrow> world" where
  "run_effect w (SetItem k v) = w\<lparr>localStorage := setItem k v (localStorage w)\<rparr>"
| "run_effect w (Fetch r) = w\<lparr>fetched := fetched w @ [r]\<rparr>"

definition sendRecord :: "sink \<Rightarrow> string option \<Rightarrow> world \<Rightarrow> world" where
  "sendRecord s b w = run_effect w (Fetch (post_request s b))"

datatype sent = Response response | Done string

definition sendRecord_promise :: "(response \<Rightarrow> string) option \<Rightarrow> response promise \<Rightarrow> sent promise" where
  "sendRecord_promise done p =
     (case done of
        None \<Rightarrow> (case p of Resolved r \<Rightarrow> Resolved (Response r) | Rejected reason \<Rightarrow> Rejected reason)
      | Some d \<Rightarrow> (case p of Resolved r \<Rightarrow> Resolved (Done (d r)) | Rejected reason \<Rightarrow> Rejected reason))"

text \<open>\<open>p.then(f)\<close> and \<open>p.catch(h)\<close>, for handlers that act on the world.\<close>

definition then_do :: "'a promise \<Rightarrow> ('a \<Rightarrow> world \<Rightarrow> world) \<Rightarrow> world \<Rightarrow> unit promise \<times> world" where
  "then_do p f w =
     (case p of Resolved a \<Rightarrow> (Resolved (), f a w) | Rejected reason \<Rightarrow> (Rejected reason, w))"

definition catch_do :: "unit promise \<times> world \<Rightarrow> (jsvalue \<Rightarrow> world \<Rightarrow> unit promise \<times> world)
    \<Rightarrow> unit promise \<times> world" where
  "catch_do pw h =
     (case pw of (Resolved a, w) \<Rightarrow> (Resolved a, w) | (Rejected reason, w) \<Rightarrow> h reason w)"

text \<open>
  The handler of both \<open>catch\<close> calls: \<open>logSuppressedError\<close> returns nothing, so the
  promise resolves; \<open>Promise.reject(reason)\<close> rejects with the same reason.
\<close>

definition on_failure :: "sink \<Rightarrow> runtime \<Rightarrow> jsvalue \<Rightarrow> world \<Rightarrow> unit promise \<times> world" where
  "on_failure s rt reason w =
     (if suppressErrors s then (Resolved (), logSuppressedError rt reason w)
      else (Rejected reason, w))"

subsection \<open>sendToServer and emit\<close>

text \<open>
  The function \<open>sendToServer\<close> maps over the events. The nested object starts as
  \<open>{}\<close>; the test \<open>e.error instanceof Error && e.error.stack\<close> holds when the error is
  an instance of \<open>Error\<close> whose stack is a non-empty string, and \<open>ExceptionDetail\<close> is
  assigned only then.
\<close>

definition translate :: "LogEvent \<Rightarrow> mappedEvent" where
  "translate e =
     \<lparr>m_level = mapLogLevel (level e),
      m_message = messageTemplate_raw e,
      m_properties = properties e,
      m_dt = timestamp e,
      m_platform = ''browser'',
      m_osplatform = ''browser'',
      m_syslog =
        \<lparr>appname = getAppname (properties e),
         host = ''localhost'',
         hostname = ''localhost'',
         logtail_11993 =
           (case error e of
              None \<Rightarrow> Map.empty
            | Some err \<Rightarrow>
                (case stack err of
                   None \<Rightarrow> Map.empty
                 | Some st \<Rightarrow>
                     if instanceof_Error err \<and> st \<noteq> []
                     then [''ExceptionDetail'' \<mapsto> st] else Map.empty))\<rparr>\<rparr>"

definition new_storageKey :: "runtime \<Rightarrow> string" where
  "new_storageKey rt =
     storage_prefix @ ''-'' @ show_int (getTime rt) @ ''-'' @ show_nat (random_floor rt + 1)"

text \<open>
  The synchronous part of \<open>sendToServer\<close>, up to the moment the promise is returned. It
  calls \<open>localStorage.setItem\<close> when the sink is durable and then, through
  \<open>sendRecord\<close>, \<open>fetch\<close>: \<open>sendToServer_effects\<close> lists these calls in that order.
  \<open>sendToServer_begin\<close> gives the value of the local \<open>storageKey\<close> (\<open>None\<close> when
  undefined) and the world after the calls.
\<close>

definition sendToServer_effects :: "sink \<Rightarrow> runtime \<Rightarrow> LogEvent list \<Rightarrow> effect list" where
  "sendToServer_effects s rt events =
     (let logs = map translate events;
          b = JSON_stringify rt logs
      in (if durable s then [SetItem (new_storageKey rt) b] else [])
         @ [Fetch (post_request s (Some b))])"

definition sendToServer_begin :: "sink \<Rightarrow> runtime \<Rightarrow> LogEvent list \<Rightarrow> world \<Rightarrow> string option \<times> world" where
  "sendToServer_begin s rt events w =
     (if durable s then Some (new_storageKey rt) else None,
      foldl run_effect w (sendToServer_effects s rt events))"

text \<open>
  \<open>sendToServer_settle\<close> is the rest: what the \<open>then\<close> and \<open>catch\<close> handlers do once
  the promise of \<open>fetch\<close> has settled, and how the returned promise settles.
\<close>

definition sendToServer_settle :: "sink \<Rightarrow> runtime \<Rightarrow> string option \<Rightarrow> response promise \<Rightarrow> world
    \<Rightarrow> unit promise \<times> world" where
  "sendToServer_settle s rt storageKey fetch_result w =
     catch_do
       (then_do (sendRecord_promise None fetch_result)
          (\<lambda>_ w'. case storageKey of
                     Some k \<Rightarrow> if k \<noteq> [] then w'\<lparr>localStorage := removeItem k (localStorage w')\<rparr> else w'
                   | None \<Rightarrow> w')
          w)
       (on_failure s rt)"

text \<open>
  The handlers run when the promise of \<open>fetch\<close> settles, on the world as it is then.
  Other calls may be in flight and the store is shared, so \<open>meanwhile\<close> stands for what
  the rest of the program did to the world between the return of \<open>sendToServer\<close> and
  that moment. \<open>sendToServer\<close> is the run in which nothing happened in between.
\<close>

definition sendToServer_with :: "(world \<Rightarrow> world) \<Rightarrow> sink \<Rightarrow> runtime \<Rightarrow> LogEvent list
    \<Rightarrow> response promise \<Rightarrow> world \<Rightarrow> unit promise \<times> world" where
  "sendToServer_with meanwhile s rt events fetch_result w =
     (let (storageKey, w1) = sendToServer_begin s rt events w
      in sendToServer_settle s rt storageKey fetch_result (meanwhile w1))"

definition sendToServer :: "sink \<Rightarrow> runtime \<Rightarrow> LogEvent list \<Rightarrow> response promise \<Rightarrow> world
    \<Rightarrow> unit promise \<times> world" where
  "sendToServer s rt events fetch_result w =
     sendToServer_with (\<lambda>w1. w1) s rt events fetch_result w"

text \<open>
  \<open>emit\<close>, run to the settlement of the promise it returns; \<open>fetch_result\<close> is how the
  promise of the one \<open>fetch\<close> it may issue settles. \<open>emit_with\<close> is the call with the
  rest of the program acting in between, \<open>emit\<close> the call on its own.
\<close>

definition filteredEvents :: "sink \<Rightarrow> LogEvent list \<Rightarrow> LogEvent list" where
  "filteredEvents s events =
     (case levelSwitch s of
        Some sw \<Rightarrow> filter (\<lambda>e. sw (level e)) events
      | None \<Rightarrow> events)"

definition emit_with :: "(world \<Rightarrow> world) \<Rightarrow> sink \<Rightarrow> runtime \<Rightarrow> LogEvent list
    \<Rightarrow> response promise \<Rightarrow> world \<Rightarrow> unit promise \<times> world" where
  "emit_with meanwhile s rt events fetch_result w =
     (if filteredEvents s events = [] then (Resolved (), w)
      else sendToServer_with meanwhile s rt (filteredEvents s events) fetch_result w)"

definition emit :: "sink \<Rightarrow> runtime \<Rightarrow> LogEvent list \<Rightarrow> response promise \<Rightarrow> world
    \<Rightarrow> unit promise \<times> world" where
  "emit s rt events fetch_result w =
     (if filteredEvents s events = [] then (Resolved (), w)
      else sendToServer s rt (filteredEvents s events) fetch_result w)"

subsection \<open>The constructor and its replay\<close>

text \<open>
  The loop of the constructor over the indices of the store. It returns the keys of the
  object \<open>requests\<close> in the order they were added, and the world after the calls of
  \<open>fetch\<close>; no handler runs before the constructor returns, so the store is not changed.
\<close>

function replay_loop :: "sink \<Rightarrow> nat \<Rightarrow> string list \<Rightarrow> world \<Rightarrow> string list \<times> world" where
  "replay_loop s i requests w =
     (if i < length (localStorage w) then
        (let storageKey = key_at i (localStorage w)
         in if \<not> indexOf_is_0 storageKey storage_prefix then replay_loop s (i + 1) requests w
            else replay_loop s (i + 1) (requests @ [storageKey])
                   (sendRecord s (getItem storageKey (localStorage w)) w))
      else (requests, w))"
  by pat_completeness auto
termination
  by (relation "measure (\<lambda>(s, i, requests, w). length (localStorage w) - i)")
     (auto simp: sendRecord_def)

declare replay_loop.simps [simp del]

definition BetterStackSink_new :: "runtime \<Rightarrow> BetterStackSinkOptions option \<Rightarrow> world
    \<Rightarrow> error + (sink \<times> string list \<times> world)" where
  "BetterStackSink_new rt options w =
     (case options of
        None \<Rightarrow> Inl (Error (quoted ''options'' @ '' parameter is required.''))
      | Some opts \<Rightarrow>
          if \<not> truthy (read_prop (opt_token opts))
          then Inl (Error (quoted ''options.token'' @ '' parameter is required.''))
          else
            let address =
                  (if opt_ingestionUri opts \<noteq> None \<and> truthy (read_prop (opt_ingestionUri opts))
                      \<and> typeof (read_prop (opt_ingestionUri opts)) = ''string''
                   then js_string (read_prop (opt_ingestionUri opts))
                   else ''https://in.logs.betterstack.com'');
                unavailable =
                  (opt_durable opts \<noteq> None \<and> truthy (read_prop (opt_durable opts))
                     \<and> \<not> has_localStorage rt);
                w1 = (if unavailable \<and> has_console_warn rt
                      then w\<lparr>console_warnings := console_warnings w @
                              [quoted ''options.durable'' @ '' parameter was set to true, but ''
                                @ quoted ''localStorage'' @ '' is not available.'']\<rparr>
                      else w);
                s = \<lparr>ingestionAddress = address,
                     token = read_prop (opt_token opts),
                     levelSwitch = None,
                     suppressErrors = (read_prop (opt_suppressErrors opts) \<noteq> JBool False),
                     durable = (if unavailable then False else truthy (read_prop (opt_durable opts)))\<rparr>
            in if durable s
               then (let (requests, w2) = replay_loop s 0 [] w1 in Inr (s, requests, w2))
               else Inr (s, [], w1))"

text \<open>
  How the promise stored under \<open>requests[storageKey]\<close> settles and what its handlers do,
  from how the promise of its \<open>fetch\<close> settled.
\<close>

definition replay_settle :: "sink \<Rightarrow> runtime \<Rightarrow> string \<Rightarrow> response promise \<Rightarrow> world
    \<Rightarrow> unit promise \<times> world" where
  "replay_settle s rt storageKey fetch_result w =
     catch_do
       (then_do (sendRecord_promise (Some (\<lambda>_. storageKey)) fetch_result)
          (\<lambda>k w'. case k of
                     Done k' \<Rightarrow> w'\<lparr>localStorage := removeItem k' (localStorage w')\<rparr>
                   | Response _ \<Rightarrow> w')
          w)
       (on_failure s rt)"

text \<open>
  All the promises of \<open>requests\<close> settled, one after the other in the given order;
  \<open>net k\<close> is how the \<open>fetch\<close> issued for the key \<open>k\<close> settles.
\<close>

fun replay_settle_all :: "sink \<Rightarrow> runtime \<Rightarrow> (string \<Rightarrow> response promise) \<Rightarrow> string list \<Rightarrow> world
    \<Rightarrow> (string \<times> unit promise) list \<times> world" where
  "replay_settle_all s rt net [] w = ([], w)"
| "replay_settle_all s rt net (k # ks) w =
     (let (p, w1) = replay_settle s rt k (net k) w;
          (ps, w2) = replay_settle_all s rt net ks w1
      in ((k, p) # ps, w2))"

text \<open>\<open>toString\<close> and \<open>flush\<close>.\<close>

definition toString :: "sink \<Rightarrow> string" where
  "toString s = ''BetterStackSink''"

definition flush :: "sink \<Rightarrow> world \<Rightarrow> unit promise \<times> world" where
  "flush s w = (Resolved (), w)"

subsection \<open>The life of a sink\<close>

text \<open>
  The calls a host can make on a constructed sink. No method assigns a field of the
  object, so each call hands the sink on as it was and changes the world only.
\<close>

datatype call = Emit runtime "LogEvent list" "response promise" | Flush | ToString

fun perform :: "sink \<times> world \<Rightarrow> call \<Rightarrow> sink \<times> world" where
  "perform (s, w) (Emit rt events fetch_result) = (s, snd (emit s rt events fetch_result w))"
| "perform (s, w) Flush = (s, snd (flush s w))"
| "perform (s, w) ToString = (s, w)"

definition run :: "sink \<times> world \<Rightarrow> call list \<Rightarrow> sink \<times> world" where
  "run sw calls = foldl perform sw calls"

text \<open>The payload of an \<open>emit\<close> call: the local \<open>body\<close> of \<open>sendToServer\<close> there.\<close>

definition batch :: "sink \<Rightarrow> runtime \<Rightarrow> LogEvent list \<Rightarrow> string" where
  "batch s rt events = JSON_stringify rt (map translate (filteredEvents s events))"

section \<open>Concrete inputs\<close>

text \<open>
  A runtime with a store and a console, a clock at 5 and a draw of 6, so that the key of
  a batch is \<open>structured-log-betterstack-sink-5-7\<close>; its serialiser joins the messages.
\<close>

definition browser :: runtime where
  "browser =
     \<lparr>has_localStorage = True, has_console_warn = True, getTime = 5, random_floor = 6,
      JSON_stringify = (\<lambda>logs. concat (map m_message logs))\<rparr>"

definition browser_mute :: runtime where
  "browser_mute = browser\<lparr>has_console_warn := False\<rparr>"

text \<open>
  The same runtime one millisecond later, and a second \<open>emit\<close> call of the durable
  sink, made then, up to the return of its promise: what another call in flight does to
  the world while the first waits for its \<open>fetch\<close>.
\<close>

definition browser_later :: runtime where
  "browser_later = browser\<lparr>getTime := 6\<rparr>"

definition options_durable :: BetterStackSinkOptions where
  "options_durable =
     \<lparr>opt_token = Some (JStr ''t''), opt_ingestionUri = None,
      opt_suppressErrors = None, opt_durable = Some (JBool True)\<rparr>"

definition options_loud :: BetterStackSinkOptions where
  "options_loud = options_durable\<lparr>opt_suppressErrors := Some (JBool False)\<rparr>"

definition options_zero :: BetterStackSinkOptions where
  "options_zero = options_durable\<lparr>opt_suppressErrors := Some (JNum 0)\<rparr>"

definition sink_durable :: sink where
  "sink_durable =
     \<lparr>ingestionAddress = ''https://in.logs.betterstack.com'', token = JStr ''t'',
      levelSwitch = None, suppressErrors = True, durable = True\<rparr>"

definition sink_loud :: sink where
  "sink_loud = sink_durable\<lparr>suppressErrors := False\<rparr>"

definition event_info :: LogEvent where
  "event_info =
     \<lparr>level = 15, messageTemplate_raw = ''hello'',
      properties = [''appname'' \<mapsto> JStr ''svc-a''], timestamp = 0, error = None\<rparr>"

definition event_failed :: LogEvent where
  "event_failed =
     \<lparr>level = 3, messageTemplate_raw = ''failed'', properties = Map.empty, timestamp = 1,
      error = Some \<lparr>instanceof_Error = True, stack = Some ''Error: x at f''\<rparr>\<rparr>"

definition event_odd :: LogEvent where
  "event_odd =
     \<lparr>level = 2, messageTemplate_raw = ''odd'', properties = Map.empty, timestamp = 2,
      error = Some \<lparr>instanceof_Error = True, stack = Some []\<rparr>\<rparr>"

definition world_empty :: world where
  "world_empty = \<lparr>localStorage = [], console_warnings = [], fetched = []\<rparr>"

text \<open>A store that holds a batch left by an earlier failed delivery.\<close>

definition world_pending :: world where
  "world_pending =
     \<lparr>localStorage = [(''structured-log-betterstack-sink-1-1'', ''old'')],
      console_warnings = [], fetched = []\<rparr>"

text \<open>A store with two pending batches around an entry of another application.\<close>

definition world_three :: world where
  "world_three =
     \<lparr>localStorage =
        [(''structured-log-betterstack-sink-1-1'', ''a''), (''theme'', ''dark''),
         (''structured-log-betterstack-sink-2-2'', ''b'')],
      console_warnings = [], fetched = []\<rparr>"

definition second_call :: "world \<Rightarrow> world" where
  "second_call w = snd (sendToServer_begin sink_durable browser_later [event_failed] w)"

definition failure :: jsvalue where
  "failure = JObject ''TypeError: Failed to fetch''"

text \<open>The network fails for the first pending batch and answers for every other.\<close>

definition net_first_fails :: "string \<Rightarrow> response promise" where
  "net_first_fails k =
     (if k = ''structured-log-betterstack-sink-1-1'' then Rejected failure
      else Resolved \<lparr>status = 202\<rparr>)"

section \<open>The store\<close>

lemma namespaced_new_storageKey: "namespaced (new_storageKey rt)"
  by (simp add: namespaced_def indexOf_is_0_def new_storageKey_def storage_prefix_def)

lemma new_storageKey_nonempty: "new_storageKey rt \<noteq> []"
  by (simp add: new_storageKey_def storage_prefix_def)

lemma removeItem_setItem: "removeItem k (setItem k v st) = removeItem k st"
  by (induction st) (auto simp: removeItem_def)

lemma getItem_setItem: "getItem k (setItem k v st) = Some v"
  by (induction st) (auto simp: getItem_def)

lemma getItem_setItem_other: "k' \<noteq> k \<Longrightarrow> getItem k' (setItem k v st) = getItem k' st"
  by (induction st) (auto simp: getItem_def)

lemma getItem_removeItem: "getItem k' (removeItem k st) = (if k' = k then None else getItem k' st)"
  by (induction st) (auto simp: getItem_def removeItem_def)

lemma keys_setItem:
  "map fst (setItem k v st) = (if k \<in> set (map fst st) then map fst st else map fst st @ [k])"
  by (induction st) force+

lemma removeItem_absent: "k \<notin> set (map fst st) \<Longrightarrow> removeItem k st = st"
  by (induction st) (auto simp: removeItem_def)

lemma namespaced_keys_removeItem:
  "namespaced_keys (removeItem k st) = filter (\<lambda>k'. k' \<noteq> k) (namespaced_keys st)"
  by (induction st) (auto simp: removeItem_def namespaced_keys_def)

lemma namespaced_keys_setItem:
  "namespaced_keys (setItem k v st) =
     (if k \<in> set (map fst st) \<or> \<not> namespaced k then namespaced_keys st else namespaced_keys st @ [k])"
  by (simp add: namespaced_keys_def keys_setItem)

lemma sendToServer_begin_durable:
  "durable s \<Longrightarrow>
   sendToServer_begin s rt evs w =
     (Some (new_storageKey rt),
      sendRecord s (Some (JSON_stringify rt (map translate evs)))
        (w\<lparr>localStorage := setItem (new_storageKey rt) (JSON_stringify rt (map translate evs)) (localStorage w)\<rparr>))"
  by (simp add: sendToServer_begin_def sendToServer_effects_def sendRecord_def Let_def)

lemma sendToServer_begin_plain:
  "\<not> durable s \<Longrightarrow>
   sendToServer_begin s rt evs w =
     (None, sendRecord s (Some (JSON_stringify rt (map translate evs))) w)"
  by (simp add: sendToServer_begin_def sendToServer_effects_def sendRecord_def Let_def)

lemma settle_resolved:
  "sendToServer_settle s rt (Some k) (Resolved r) w =
     (Resolved (), if k \<noteq> [] then w\<lparr>localStorage := removeItem k (localStorage w)\<rparr> else w)"
  by (simp add: sendToServer_settle_def then_do_def catch_do_def sendRecord_promise_def)

lemma settle_resolved_plain:
  "sendToServer_settle s rt None (Resolved r) w = (Resolved (), w)"
  by (simp add: sendToServer_settle_def then_do_def catch_do_def sendRecord_promise_def)

lemma settle_rejected:
  "sendToServer_settle s rt key (Rejected reason) w = on_failure s rt reason w"
  by (simp add: sendToServer_settle_def then_do_def catch_do_def sendRecord_promise_def)

lemma emit_durable_resolved:
  assumes "durable s" "filteredEvents s events \<noteq> []"
  shows "emit s rt events (Resolved r) w =
     (Resolved (),
      w\<lparr>localStorage := removeItem (new_storageKey rt) (localStorage w),
        fetched := fetched w @ [post_request s (Some (batch s rt events))]\<rparr>)"
  using assms
  by (simp add: emit_def sendToServer_def sendToServer_with_def sendToServer_begin_durable settle_resolved
      new_storageKey_nonempty sendRecord_def removeItem_setItem batch_def)

lemma emit_durable_rejected:
  assumes "durable s" "filteredEvents s events \<noteq> []"
  shows "emit s rt events (Rejected reason) w =
     on_failure s rt reason
      (w\<lparr>localStorage := setItem (new_storageKey rt) (batch s rt events) (localStorage w),
        fetched := fetched w @ [post_request s (Some (batch s rt events))]\<rparr>)"
  using assms
  by (simp add: emit_def sendToServer_def sendToServer_with_def sendToServer_begin_durable settle_rejected
      sendRecord_def batch_def)

lemma emit_rejected:
  assumes "filteredEvents s events \<noteq> []"
  shows "fst (emit s rt events (Rejected reason) w) =
     (if suppressErrors s then Resolved () else Rejected reason)"
  using assms
  by (simp add: emit_def sendToServer_def sendToServer_with_def settle_rejected
      on_failure_def split: prod.splits)

section \<open>The replay\<close>

lemma replay_loop_eq:
  "replay_loop s i requests w =
     (requests @ filter namespaced (map fst (drop i (localStorage w))),
      w\<lparr>fetched := fetched w @
           map (\<lambda>k. post_request s (getItem k (localStorage w)))
             (filter namespaced (map fst (drop i (localStorage w))))\<rparr>)"
proof (induction s i requests w rule: replay_loop.induct)
  case (1 s i requests w)
  show ?case
  proof (cases "i < length (localStorage w)")
    case False
    then show ?thesis
      by (subst replay_loop.simps) simp
  next
    case True
    then have d: "drop i (localStorage w) = localStorage w ! i # drop (Suc i) (localStorage w)"
      by (simp add: Cons_nth_drop_Suc)
    show ?thesis
    proof (cases "indexOf_is_0 (key_at i (localStorage w)) storage_prefix")
      case False
      with True 1(1) [OF True refl] d show ?thesis
        by (subst replay_loop.simps) (simp add: key_at_def namespaced_def [symmetric] Let_def)
    next
      case yes: True
      with True 1(2) [OF True refl] d show ?thesis
        by (subst replay_loop.simps)
           (simp add: key_at_def namespaced_def [symmetric] sendRecord_def Let_def)
    qed
  qed
qed

lemma constructor_durable:
  assumes "BetterStackSink_new rt options w = Inr (s, requests, w')" and "durable s"
  shows "(requests, w') = replay_loop s 0 [] w"
  using assms
  by (auto simp: BetterStackSink_new_def Let_def split: option.splits if_splits prod.splits)

lemma replay_settle_resolved:
  "replay_settle s rt k (Resolved r) w =
     (Resolved (), w\<lparr>localStorage := removeItem k (localStorage w)\<rparr>)"
  by (simp add: replay_settle_def then_do_def catch_do_def sendRecord_promise_def)

lemma replay_settle_rejected:
  "replay_settle s rt k (Rejected reason) w = on_failure s rt reason w"
  by (simp add: replay_settle_def then_do_def catch_do_def sendRecord_promise_def)

lemma localStorage_on_failure: "localStorage (snd (on_failure s rt reason w)) = localStorage w"
  by (simp add: on_failure_def logSuppressedError_def)

lemma fst_on_failure:
  "fst (on_failure s rt reason w) = (if suppressErrors s then Resolved () else Rejected reason)"
  by (simp add: on_failure_def)

lemma localStorage_replay_settle:
  "localStorage (snd (replay_settle s rt k p w)) =
     (case p of Resolved r \<Rightarrow> removeItem k (localStorage w) | Rejected reason \<Rightarrow> localStorage w)"
  by (cases p) (simp_all add: replay_settle_resolved replay_settle_rejected localStorage_on_failure)

lemma fst_replay_settle:
  "fst (replay_settle s rt k p w) =
     (case p of Resolved r \<Rightarrow> Resolved ()
      | Rejected reason \<Rightarrow> if suppressErrors s then Resolved () else Rejected reason)"
  by (cases p) (simp_all add: replay_settle_resolved replay_settle_rejected fst_on_failure)

lemma localStorage_replay_settle_all:
  "localStorage (snd (replay_settle_all s rt net ks w)) =
     filter (\<lambda>(k, v). \<not> (k \<in> set ks \<and> (\<exists>r. net k = Resolved r))) (localStorage w)"
proof (induction ks arbitrary: w)
  case Nil
  then show ?case by simp
next
  case (Cons k ks)
  obtain p w1 where h: "replay_settle s rt k (net k) w = (p, w1)"
    by (cases "replay_settle s rt k (net k) w")
  then have st: "localStorage w1 =
      (case net k of Resolved r \<Rightarrow> removeItem k (localStorage w) | Rejected reason \<Rightarrow> localStorage w)"
    using localStorage_replay_settle [of s rt k "net k" w] by simp
  show ?case
  proof (cases "net k")
    case (Resolved r)
    with h st Cons.IH [of w1] show ?thesis
      by (auto simp: removeItem_def split: prod.splits intro!: filter_cong)
  next
    case (Rejected reason)
    with h st Cons.IH [of w1] show ?thesis
      by (auto split: prod.splits intro!: filter_cong)
  qed
qed

lemma fst_replay_settle_all:
  "fst (replay_settle_all s rt net ks w) =
     map (\<lambda>k. (k, case net k of Resolved r \<Rightarrow> Resolved ()
                 | Rejected reason \<Rightarrow> if suppressErrors s then Resolved () else Rejected reason)) ks"
proof (induction ks arbitrary: w)
  case Nil
  then show ?case by simp
next
  case (Cons k ks)
  obtain p w1 where h: "replay_settle s rt k (net k) w = (p, w1)"
    by (cases "replay_settle s rt k (net k) w")
  obtain ps w2 where t: "replay_settle_all s rt net ks w1 = (ps, w2)"
    by (cases "replay_settle_all s rt net ks w1")
  from h fst_replay_settle [of s rt k "net k" w] have "p = (case net k of Resolved r \<Rightarrow> Resolved ()
      | Rejected reason \<Rightarrow> if suppressErrors s then Resolved () else Rejected reason)"
    by simp
  moreover from t Cons.IH [of w1] have "ps = map (\<lambda>k. (k, case net k of Resolved r \<Rightarrow> Resolved ()
                 | Rejected reason \<Rightarrow> if suppressErrors s then Resolved () else Rejected reason)) ks"
    by simp
  ultimately show ?case
    using h t by simp
qed

section \<open>The translator\<close>

text \<open>
  C6. The \<open>level\<close> of a translated record is the entry of the fixed table
  0: none, 1: critical, 3: error, 7: warning, 15: info, 31: debug, 63: trace for the
  level code of the event, and is undefined for every other code. The translation is a
  total function: it has no failing branch, for a code outside the table either.
\<close>

theorem translate_level_table:
  "m_level (translate e) =
     (if level e = 0 then Some ''none''
      else if level e = 1 then Some ''critical''
      else if level e = 3 then Some ''error''
      else if level e = 7 then Some ''warning''
      else if level e = 15 then Some ''info''
      else if level e = 31 then Some ''debug''
      else if level e = 63 then Some ''trace''
      else None)"
  by (simp add: translate_def mapLogLevel_def levelMapping_def)

theorem translate_level_table_witness:
  "m_level (translate event_info) = Some ''info'' \<and> m_level (translate event_odd) = None"
  using translate_level_table [of event_info] translate_level_table [of event_odd]
  by (simp add: event_info_def event_odd_def)

text \<open>
  C7. The nested diagnostic object of a translated record has the field
  \<open>ExceptionDetail\<close> exactly when the error of the event is an instance of \<open>Error\<close>
  with a non-empty stack; the field then holds that stack. Without the field the object
  is empty, which is the case for an event with no error and for one whose stack is
  undefined or empty.
\<close>

theorem translate_exception_detail:
  "(''ExceptionDetail'' \<in> dom (logtail_11993 (m_syslog (translate e)))
      \<longleftrightarrow> (\<exists>err st. error e = Some err \<and> instanceof_Error err \<and> stack err = Some st \<and> st \<noteq> []))
   \<and> (\<forall>err st. error e = Some err \<and> instanceof_Error err \<and> stack err = Some st \<and> st \<noteq> []
         \<longrightarrow> logtail_11993 (m_syslog (translate e)) = [''ExceptionDetail'' \<mapsto> st])
   \<and> (''ExceptionDetail'' \<notin> dom (logtail_11993 (m_syslog (translate e)))
         \<longrightarrow> logtail_11993 (m_syslog (translate e)) = Map.empty)
   \<and> (error e = None \<longrightarrow> logtail_11993 (m_syslog (translate e)) = Map.empty)
   \<and> (\<forall>err. error e = Some err \<and> (stack err = None \<or> stack err = Some [])
         \<longrightarrow> logtail_11993 (m_syslog (translate e)) = Map.empty)"
  by (auto simp: translate_def split: option.splits)

theorem translate_exception_detail_witness:
  "logtail_11993 (m_syslog (translate event_failed)) = [''ExceptionDetail'' \<mapsto> ''Error: x at f'']
   \<and> logtail_11993 (m_syslog (translate event_odd)) = Map.empty
   \<and> logtail_11993 (m_syslog (translate event_info)) = Map.empty"
proof -
  have a: "error event_failed = Some \<lparr>instanceof_Error = True, stack = Some ''Error: x at f''\<rparr>"
    by (simp add: event_failed_def)
  have b: "error event_odd = Some \<lparr>instanceof_Error = True, stack = Some []\<rparr>"
    by (simp add: event_odd_def)
  have c: "error event_info = None"
    by (simp add: event_info_def)
  from translate_exception_detail [of event_failed]
  have "\<forall>err st. error event_failed = Some err \<and> instanceof_Error err \<and> stack err = Some st \<and> st \<noteq> []
         \<longrightarrow> logtail_11993 (m_syslog (translate event_failed)) = [''ExceptionDetail'' \<mapsto> st]"
    by (rule conjunct2 [THEN conjunct1])
  with a have 1: "logtail_11993 (m_syslog (translate event_failed)) = [''ExceptionDetail'' \<mapsto> ''Error: x at f'']"
    by (metis error_value.select_convs(1) error_value.select_convs(2) list.distinct(1))
  from translate_exception_detail [of event_odd]
  have "\<forall>err. error event_odd = Some err \<and> (stack err = None \<or> stack err = Some [])
         \<longrightarrow> logtail_11993 (m_syslog (translate event_odd)) = Map.empty"
    by (rule conjunct2 [THEN conjunct2, THEN conjunct2, THEN conjunct2])
  with b have 2: "logtail_11993 (m_syslog (translate event_odd)) = Map.empty"
    by (metis error_value.select_convs(2))
  from translate_exception_detail [of event_info]
  have "error event_info = None \<longrightarrow> logtail_11993 (m_syslog (translate event_info)) = Map.empty"
    by (rule conjunct2 [THEN conjunct2, THEN conjunct2, THEN conjunct1])
  then have 3: "logtail_11993 (m_syslog (translate event_info)) = Map.empty"
    by (rule mp) (rule c)
  from 1 2 3 show ?thesis by (intro conjI)
qed

text \<open>
  C8. The \<open>syslog.appname\<close> of a translated record is the value stored under
  \<open>appname\<close> in the properties of the event when that key is present, and the text
  \<open>unknown\<close> when it is absent.
\<close>

theorem translate_appname:
  "appname (m_syslog (translate e)) =
     (case properties e ''appname'' of Some v \<Rightarrow> v | None \<Rightarrow> JStr ''unknown'')"
  by (simp add: translate_def getAppname_def read_prop_def dom_def split: option.splits)

theorem translate_appname_witness:
  "appname (m_syslog (translate event_info)) = JStr ''svc-a''
   \<and> appname (m_syslog (translate event_failed)) = JStr ''unknown''"
  using translate_appname [of event_info] translate_appname [of event_failed]
  by (simp add: event_info_def event_failed_def)

section \<open>The constructor\<close>

lemma constructor_fields:
  assumes "BetterStackSink_new rt options w = Inr (s, requests, w')"
  shows "\<exists>opts. options = Some opts
     \<and> levelSwitch s = None
     \<and> suppressErrors s = (read_prop (opt_suppressErrors opts) \<noteq> JBool False)"
proof (cases options)
  case None
  with assms show ?thesis
    by (simp add: BetterStackSink_new_def)
next
  case (Some opts)
  with assms show ?thesis
    by (auto simp: BetterStackSink_new_def Let_def split: if_splits prod.splits)
qed

lemma constructor_browser_durable:
  "BetterStackSink_new browser (Some options_durable) world_empty = Inr (sink_durable, [], world_empty)"
  by (simp add: BetterStackSink_new_def Let_def browser_def options_durable_def world_empty_def
      sink_durable_def read_prop_def replay_loop_eq)

lemma constructor_browser_loud:
  "BetterStackSink_new browser (Some options_loud) world_empty = Inr (sink_loud, [], world_empty)"
  by (simp add: BetterStackSink_new_def Let_def browser_def options_durable_def options_loud_def
      world_empty_def sink_durable_def sink_loud_def read_prop_def replay_loop_eq)

lemma constructor_browser_zero:
  "BetterStackSink_new browser (Some options_zero) world_empty = Inr (sink_durable, [], world_empty)"
  by (simp add: BetterStackSink_new_def Let_def browser_def options_durable_def options_zero_def
      world_empty_def sink_durable_def read_prop_def replay_loop_eq)

text \<open>
  C9. The sink suppresses errors unless the option \<open>suppressErrors\<close> is exactly
  \<open>false\<close>: an absent option, \<open>undefined\<close>, \<open>null\<close>, \<open>0\<close>, the empty string and
  every other value switch suppression on. So a failed delivery of a constructed sink
  rejects the promise of \<open>emit\<close> only when the option was \<open>false\<close>.
\<close>

theorem suppressErrors_unless_false:
  assumes "BetterStackSink_new rt (Some opts) w = Inr (s, requests, w')"
  shows "suppressErrors s = (opt_suppressErrors opts \<noteq> Some (JBool False))
     \<and> (events \<noteq> [] \<longrightarrow>
          fst (emit s rt' events (Rejected reason) w0) =
            (if opt_suppressErrors opts = Some (JBool False) then Rejected reason else Resolved ()))"
proof -
  from constructor_fields [OF assms]
  have l: "levelSwitch s = None"
    and q: "suppressErrors s = (read_prop (opt_suppressErrors opts) \<noteq> JBool False)"
    by auto
  have q': "suppressErrors s = (opt_suppressErrors opts \<noteq> Some (JBool False))"
    using q by (simp add: read_prop_def split: option.splits)
  have "events \<noteq> [] \<Longrightarrow> filteredEvents s events \<noteq> []"
    using l by (simp add: filteredEvents_def)
  then show ?thesis
    using q' emit_rejected [of s events rt' reason w0] by auto
qed

theorem suppressErrors_unless_false_witness:
  "BetterStackSink_new browser (Some options_zero) world_empty = Inr (sink_durable, [], world_empty)
   \<and> opt_suppressErrors options_zero = Some (JNum 0)
   \<and> suppressErrors sink_durable
   \<and> fst (emit sink_durable browser [event_info] (Rejected failure) world_empty) = Resolved ()"
  using suppressErrors_unless_false [OF constructor_browser_zero, of "[event_info]" browser failure world_empty]
    constructor_browser_zero
  by (simp add: options_zero_def)

section \<open>Facts about the concrete inputs and about emit\<close>

lemma new_storageKey_browser: "new_storageKey browser = ''structured-log-betterstack-sink-5-7''"
  by (simp add: new_storageKey_def browser_def storage_prefix_def show_int_def show_nat.simps)

lemma new_storageKey_browser_mute: "new_storageKey browser_mute = ''structured-log-betterstack-sink-5-7''"
  by (simp add: new_storageKey_def browser_mute_def browser_def storage_prefix_def show_int_def
      show_nat.simps)

lemma namespaced_pending_key: "namespaced ''structured-log-betterstack-sink-1-1''"
  by (simp add: namespaced_def indexOf_is_0_def storage_prefix_def)

lemma durable_sink_durable: "durable sink_durable"
  by (simp add: sink_durable_def)

lemma suppressErrors_sink_durable: "suppressErrors sink_durable"
  by (simp add: sink_durable_def)

lemma filteredEvents_sink_durable: "filteredEvents sink_durable events = events"
  by (simp add: filteredEvents_def sink_durable_def)

lemma filteredEvents_sink_loud: "filteredEvents sink_loud events = events"
  by (simp add: filteredEvents_def sink_durable_def sink_loud_def)

lemma batch_browser_info: "batch sink_durable browser [event_info] = ''hello''"
  by (simp add: batch_def filteredEvents_sink_durable browser_def translate_def event_info_def)

lemma batch_browser_mute_info: "batch sink_durable browser_mute [event_info] = ''hello''"
  by (simp add: batch_def filteredEvents_sink_durable browser_mute_def browser_def translate_def
      event_info_def)

lemma emit_rejected_world:
  assumes "filteredEvents s events \<noteq> []"
  shows "emit s rt events (Rejected reason) w =
     on_failure s rt reason (snd (sendToServer_begin s rt (filteredEvents s events) w))"
  using assms
  by (simp add: emit_def sendToServer_def sendToServer_with_def settle_rejected split: prod.splits)

lemma console_warnings_begin:
  "console_warnings (snd (sendToServer_begin s rt evs w)) = console_warnings w"
  by (simp add: sendToServer_begin_def sendToServer_effects_def Let_def)

lemma console_warnings_on_failure:
  "console_warnings (snd (on_failure s rt reason w)) =
     (if suppressErrors s \<and> has_console_warn rt
      then console_warnings w @ [''Suppressed error when logging to Betterstack: '' @ js_string reason]
      else console_warnings w)"
  by (simp add: on_failure_def logSuppressedError_def)

section \<open>Calls in flight\<close>

lemma emit_alone: "emit s rt events fetch_result w = emit_with (\<lambda>w1. w1) s rt events fetch_result w"
  by (simp add: emit_def emit_with_def sendToServer_def)

lemma sendToServer_effects_durable:
  "durable s \<Longrightarrow>
   sendToServer_effects s rt evs =
     [SetItem (new_storageKey rt) (JSON_stringify rt (map translate evs)),
      Fetch (post_request s (Some (JSON_stringify rt (map translate evs))))]"
  by (simp add: sendToServer_effects_def Let_def)

lemma fst_begin_durable: "durable s \<Longrightarrow> fst (sendToServer_begin s rt evs w) = Some (new_storageKey rt)"
  by (simp add: sendToServer_begin_def)

lemma localStorage_begin_durable:
  "durable s \<Longrightarrow>
   localStorage (snd (sendToServer_begin s rt evs w)) =
     setItem (new_storageKey rt) (JSON_stringify rt (map translate evs)) (localStorage w)"
  by (simp add: sendToServer_begin_durable sendRecord_def)

lemma emit_with_resolved:
  assumes "durable s" and "filteredEvents s events \<noteq> []"
  shows "emit_with meanwhile s rt events (Resolved r) w =
     (Resolved (),
      (meanwhile (snd (sendToServer_begin s rt (filteredEvents s events) w)))
        \<lparr>localStorage := removeItem (new_storageKey rt)
           (localStorage (meanwhile (snd (sendToServer_begin s rt (filteredEvents s events) w))))\<rparr>)"
proof -
  obtain k w1 where b: "sendToServer_begin s rt (filteredEvents s events) w = (k, w1)"
    by (cases "sendToServer_begin s rt (filteredEvents s events) w")
  with fst_begin_durable [OF assms(1), of rt "filteredEvents s events" w]
  have "k = Some (new_storageKey rt)"
    by simp
  with b assms(2) show ?thesis
    by (simp add: emit_with_def sendToServer_with_def settle_resolved new_storageKey_nonempty)
qed

lemma emit_with_rejected:
  assumes "filteredEvents s events \<noteq> []"
  shows "emit_with meanwhile s rt events (Rejected reason) w =
     on_failure s rt reason (meanwhile (snd (sendToServer_begin s rt (filteredEvents s events) w)))"
  using assms
  by (simp add: emit_with_def sendToServer_with_def settle_rejected split: prod.splits)

lemma new_storageKey_browser_later:
  "new_storageKey browser_later = ''structured-log-betterstack-sink-6-7''"
  by (simp add: new_storageKey_def browser_later_def browser_def storage_prefix_def show_int_def
      show_nat.simps)

lemma localStorage_second_call:
  "localStorage (second_call w) =
     setItem ''structured-log-betterstack-sink-6-7'' ''failed'' (localStorage w)"
proof -
  have "JSON_stringify browser_later [translate event_failed] = ''failed''"
    by (simp add: browser_later_def browser_def translate_def event_failed_def)
  then show ?thesis
    by (simp add: second_call_def localStorage_begin_durable durable_sink_durable
        new_storageKey_browser_later)
qed

lemma namespaced_later_key: "namespaced ''structured-log-betterstack-sink-6-7''"
  by (simp add: namespaced_def indexOf_is_0_def storage_prefix_def)

lemma namespaced_browser_key: "namespaced ''structured-log-betterstack-sink-5-7''"
  by (simp add: namespaced_def indexOf_is_0_def storage_prefix_def)

text \<open>
  Two calls in flight on a store that was empty: when the first is answered, the key of
  the second is still stored; when the first fails, both keys are.
\<close>

lemma overlapping_call_answered:
  "fst (emit_with second_call sink_durable browser [event_info] (Resolved \<lparr>status = 200\<rparr>) world_empty)
     = Resolved ()
   \<and> namespaced_keys (localStorage
        (snd (emit_with second_call sink_durable browser [event_info] (Resolved \<lparr>status = 200\<rparr>) world_empty)))
     = [''structured-log-betterstack-sink-6-7'']"
proof -
  have f: "filteredEvents sink_durable [event_info] \<noteq> []"
    by (simp add: filteredEvents_sink_durable)
  show ?thesis
    by (simp add: emit_with_resolved [OF durable_sink_durable f] localStorage_second_call
        localStorage_begin_durable durable_sink_durable new_storageKey_browser world_empty_def
        removeItem_def namespaced_keys_def namespaced_later_key)
qed

lemma overlapping_call_failed:
  "fst (emit_with second_call sink_durable browser [event_info] (Rejected failure) world_empty)
     = Resolved ()
   \<and> namespaced_keys (localStorage
        (snd (emit_with second_call sink_durable browser [event_info] (Rejected failure) world_empty)))
     = [''structured-log-betterstack-sink-5-7'', ''structured-log-betterstack-sink-6-7'']"
proof -
  have f: "filteredEvents sink_durable [event_info] \<noteq> []"
    by (simp add: filteredEvents_sink_durable)
  show ?thesis
    by (simp add: emit_with_rejected [OF f] fst_on_failure suppressErrors_sink_durable
        localStorage_on_failure localStorage_second_call
        localStorage_begin_durable durable_sink_durable new_storageKey_browser world_empty_def
        namespaced_keys_def namespaced_later_key namespaced_browser_key)
qed

section \<open>Durable delivery by emit\<close>

text \<open>
  The claim C1 as written fails on a store that already holds a batch: a delivery that
  succeeds removes the key of its own batch only, and the batch left by an earlier
  failed delivery stays.
\<close>

theorem emit_success_counterexample:
  "durable sink_durable
   \<and> fst (emit sink_durable browser [event_info] (Resolved \<lparr>status = 200\<rparr>) world_pending) = Resolved ()
   \<and> namespaced_keys
        (localStorage (snd (emit sink_durable browser [event_info] (Resolved \<lparr>status = 200\<rparr>) world_pending)))
      = [''structured-log-betterstack-sink-1-1'']"
proof -
  have f: "filteredEvents sink_durable [event_info] \<noteq> []"
    by (simp add: filteredEvents_sink_durable)
  show ?thesis
    using emit_durable_resolved [OF durable_sink_durable f, of browser "\<lparr>status = 200\<rparr>" world_pending]
    by (simp add: durable_sink_durable new_storageKey_browser world_pending_def removeItem_def
        namespaced_keys_def namespaced_pending_key)
qed

text \<open>
  C1, amended. In durable mode \<open>emit\<close> first stores the payload under the namespaced
  key it generates and then calls \<open>fetch\<close>, so the key is in the store when the request
  is issued. When the promise of \<open>fetch\<close> resolves, the promise of \<open>emit\<close> resolves and
  the handler has removed that key from the store as it is at that moment, whatever
  other calls did in between, leaving every other entry alone: the namespaced keys that
  remain are those the store holds then under another key. None remains when none was
  stored before the call and nothing else changed the store before the \<open>fetch\<close>
  settled. When the promise of \<open>fetch\<close> rejects, the handler leaves the store as it
  is, so the payload stays under the key.
\<close>

theorem emit_persists_then_removes:
  assumes "durable s" and "filteredEvents s events \<noteq> []"
  shows "namespaced (new_storageKey rt)
    \<and> sendToServer_effects s rt (filteredEvents s events) =
        [SetItem (new_storageKey rt) (batch s rt events),
         Fetch (post_request s (Some (batch s rt events)))]
    \<and> sendToServer_begin s rt (filteredEvents s events) w =
        (Some (new_storageKey rt),
         run_effect (run_effect w (SetItem (new_storageKey rt) (batch s rt events)))
           (Fetch (post_request s (Some (batch s rt events)))))
    \<and> getItem (new_storageKey rt)
         (localStorage (run_effect w (SetItem (new_storageKey rt) (batch s rt events))))
        = Some (batch s rt events)
    \<and> getItem (new_storageKey rt)
         (localStorage (snd (sendToServer_begin s rt (filteredEvents s events) w)))
        = Some (batch s rt events)
    \<and> fst (emit_with meanwhile s rt events (Resolved r) w) = Resolved ()
    \<and> localStorage (snd (emit_with meanwhile s rt events (Resolved r) w)) =
        removeItem (new_storageKey rt)
          (localStorage (meanwhile (snd (sendToServer_begin s rt (filteredEvents s events) w))))
    \<and> getItem (new_storageKey rt)
         (localStorage (snd (emit_with meanwhile s rt events (Resolved r) w))) = None
    \<and> namespaced_keys (localStorage (snd (emit_with meanwhile s rt events (Resolved r) w))) =
        filter (\<lambda>k. k \<noteq> new_storageKey rt)
          (namespaced_keys
             (localStorage (meanwhile (snd (sendToServer_begin s rt (filteredEvents s events) w)))))
    \<and> (namespaced_keys (localStorage w) = []
         \<and> localStorage (meanwhile (snd (sendToServer_begin s rt (filteredEvents s events) w)))
             = localStorage (snd (sendToServer_begin s rt (filteredEvents s events) w))
         \<longrightarrow> namespaced_keys (localStorage (snd (emit_with meanwhile s rt events (Resolved r) w))) = [])
    \<and> localStorage (snd (emit_with meanwhile s rt events (Rejected reason) w)) =
        localStorage (meanwhile (snd (sendToServer_begin s rt (filteredEvents s events) w)))
    \<and> (localStorage (meanwhile (snd (sendToServer_begin s rt (filteredEvents s events) w)))
          = localStorage (snd (sendToServer_begin s rt (filteredEvents s events) w))
         \<longrightarrow> getItem (new_storageKey rt)
               (localStorage (snd (emit_with meanwhile s rt events (Rejected reason) w)))
             = Some (batch s rt events))"
proof -
  let ?k = "new_storageKey rt"
  let ?b = "batch s rt events"
  let ?w1 = "snd (sendToServer_begin s rt (filteredEvents s events) w)"
  have 1: "namespaced ?k"
    by (rule namespaced_new_storageKey)
  have 2: "sendToServer_effects s rt (filteredEvents s events) =
        [SetItem ?k ?b, Fetch (post_request s (Some ?b))]"
    using assms(1) by (simp add: sendToServer_effects_durable batch_def)
  have 3: "sendToServer_begin s rt (filteredEvents s events) w =
        (Some ?k, run_effect (run_effect w (SetItem ?k ?b)) (Fetch (post_request s (Some ?b))))"
    using assms(1) by (simp add: sendToServer_begin_def 2)
  have 4: "getItem ?k (localStorage (run_effect w (SetItem ?k ?b))) = Some ?b"
    by (simp add: getItem_setItem)
  have st1: "localStorage ?w1 = setItem ?k ?b (localStorage w)"
    using assms(1) by (simp add: localStorage_begin_durable batch_def)
  have 5: "getItem ?k (localStorage ?w1) = Some ?b"
    by (simp add: st1 getItem_setItem)
  have e: "emit_with meanwhile s rt events (Resolved r) w =
     (Resolved (), (meanwhile ?w1)\<lparr>localStorage := removeItem ?k (localStorage (meanwhile ?w1))\<rparr>)"
    by (rule emit_with_resolved [OF assms])
  have 6: "fst (emit_with meanwhile s rt events (Resolved r) w) = Resolved ()"
    by (simp add: e)
  have 7: "localStorage (snd (emit_with meanwhile s rt events (Resolved r) w)) =
        removeItem ?k (localStorage (meanwhile ?w1))"
    by (simp add: e)
  have 8: "getItem ?k (localStorage (snd (emit_with meanwhile s rt events (Resolved r) w))) = None"
    by (simp add: 7 getItem_removeItem)
  have 9: "namespaced_keys (localStorage (snd (emit_with meanwhile s rt events (Resolved r) w))) =
        filter (\<lambda>k. k \<noteq> ?k) (namespaced_keys (localStorage (meanwhile ?w1)))"
    by (simp add: 7 namespaced_keys_removeItem)
  have 10: "namespaced_keys (localStorage (snd (emit_with meanwhile s rt events (Resolved r) w))) = []"
    if "namespaced_keys (localStorage w) = [] \<and> localStorage (meanwhile ?w1) = localStorage ?w1"
    using that by (simp add: 9 st1 namespaced_keys_setItem)
  have 11: "localStorage (snd (emit_with meanwhile s rt events (Rejected reason) w)) =
        localStorage (meanwhile ?w1)"
    by (simp add: emit_with_rejected [OF assms(2)] localStorage_on_failure)
  have 12: "getItem ?k (localStorage (snd (emit_with meanwhile s rt events (Rejected reason) w)))
             = Some ?b"
    if "localStorage (meanwhile ?w1) = localStorage ?w1"
    using that by (simp add: 11 5)
  from 1 2 3 4 5 6 7 8 9 10 11 12 show ?thesis
    by (intro conjI impI)
qed

theorem emit_persists_then_removes_witness:
  "durable sink_durable \<and> filteredEvents sink_durable [event_info] \<noteq> []
   \<and> namespaced_keys (localStorage world_empty) = []
   \<and> sendToServer_effects sink_durable browser [event_info] =
       [SetItem ''structured-log-betterstack-sink-5-7'' ''hello'',
        Fetch (post_request sink_durable (Some ''hello''))]
   \<and> fst (emit_with (\<lambda>w. w) sink_durable browser [event_info] (Resolved \<lparr>status = 200\<rparr>) world_empty)
       = Resolved ()
   \<and> namespaced_keys
        (localStorage
           (snd (emit_with (\<lambda>w. w) sink_durable browser [event_info] (Resolved \<lparr>status = 200\<rparr>) world_empty)))
      = []"
proof -
  have f: "filteredEvents sink_durable [event_info] \<noteq> []"
    by (simp add: filteredEvents_sink_durable)
  have n: "namespaced_keys (localStorage world_empty) = []"
    by (simp add: world_empty_def namespaced_keys_def)
  from emit_persists_then_removes [OF durable_sink_durable f, of browser world_empty "\<lambda>w. w"
      "\<lparr>status = 200\<rparr>" failure]
  have "sendToServer_effects sink_durable browser (filteredEvents sink_durable [event_info]) =
        [SetItem (new_storageKey browser) (batch sink_durable browser [event_info]),
         Fetch (post_request sink_durable (Some (batch sink_durable browser [event_info])))]"
    and "fst (emit_with (\<lambda>w. w) sink_durable browser [event_info] (Resolved \<lparr>status = 200\<rparr>) world_empty)
       = Resolved ()"
    and "namespaced_keys (localStorage world_empty) = []
         \<and> localStorage (snd (sendToServer_begin sink_durable browser (filteredEvents sink_durable [event_info]) world_empty))
             = localStorage (snd (sendToServer_begin sink_durable browser (filteredEvents sink_durable [event_info]) world_empty))
         \<longrightarrow> namespaced_keys (localStorage
               (snd (emit_with (\<lambda>w. w) sink_durable browser [event_info] (Resolved \<lparr>status = 200\<rparr>) world_empty))) = []"
    by blast+
  with durable_sink_durable f n show ?thesis
    by (simp add: filteredEvents_sink_durable new_storageKey_browser batch_browser_info)
qed

text \<open>
  The claim C2 as written fails: the promise of \<open>fetch\<close> resolves for a response of
  status 500 as for any other, so the sink removes the stored copy, resolves the promise
  of \<open>emit\<close> and writes no warning.
\<close>

theorem emit_http_error_counterexample:
  "durable sink_durable \<and> \<not> response_ok \<lparr>status = 500\<rparr>
   \<and> fst (emit sink_durable browser [event_info] (Resolved \<lparr>status = 500\<rparr>) world_empty) = Resolved ()
   \<and> localStorage (snd (emit sink_durable browser [event_info] (Resolved \<lparr>status = 500\<rparr>) world_empty)) = []
   \<and> console_warnings (snd (emit sink_durable browser [event_info] (Resolved \<lparr>status = 500\<rparr>) world_empty)) = []"
proof -
  have f: "filteredEvents sink_durable [event_info] \<noteq> []"
    by (simp add: filteredEvents_sink_durable)
  show ?thesis
    using emit_durable_resolved [OF durable_sink_durable f, of browser "\<lparr>status = 500\<rparr>" world_empty]
    by (simp add: durable_sink_durable response_ok_def world_empty_def removeItem_def)
qed

text \<open>
  C2, amended. A delivery fails when the promise of \<open>fetch\<close> rejects, which a network
  failure causes and a response of any status does not. For every \<open>emit\<close> call in
  durable mode whose \<open>fetch\<close> rejects, the payload stays in the store under its key and
  the suppression policy decides the outcome: with suppression the promise resolves and
  the warning is written if the console has \<open>warn\<close>, without it the promise rejects with
  the reason. A response, whatever its status, counts as success: the key is removed and
  the promise resolves.
\<close>

theorem emit_failure_keeps_copy:
  assumes "durable s" and "filteredEvents s events \<noteq> []"
  shows "localStorage (snd (emit s rt events (Rejected reason) w)) =
        setItem (new_storageKey rt) (batch s rt events) (localStorage w)
    \<and> getItem (new_storageKey rt) (localStorage (snd (emit s rt events (Rejected reason) w)))
        = Some (batch s rt events)
    \<and> fst (emit s rt events (Rejected reason) w) =
        (if suppressErrors s then Resolved () else Rejected reason)
    \<and> console_warnings (snd (emit s rt events (Rejected reason) w)) =
        (if suppressErrors s \<and> has_console_warn rt
         then console_warnings w @ [''Suppressed error when logging to Betterstack: '' @ js_string reason]
         else console_warnings w)
    \<and> emit s rt events (Resolved r) w =
        (Resolved (),
         w\<lparr>localStorage := removeItem (new_storageKey rt) (localStorage w),
           fetched := fetched w @ [post_request s (Some (batch s rt events))]\<rparr>)"
proof -
  have e: "emit s rt events (Rejected reason) w =
     on_failure s rt reason
      (w\<lparr>localStorage := setItem (new_storageKey rt) (batch s rt events) (localStorage w),
        fetched := fetched w @ [post_request s (Some (batch s rt events))]\<rparr>)"
    by (rule emit_durable_rejected [OF assms])
  have 1: "localStorage (snd (emit s rt events (Rejected reason) w)) =
        setItem (new_storageKey rt) (batch s rt events) (localStorage w)"
    by (simp add: e localStorage_on_failure)
  have 2: "getItem (new_storageKey rt) (localStorage (snd (emit s rt events (Rejected reason) w)))
        = Some (batch s rt events)"
    by (simp add: 1 getItem_setItem)
  have 3: "fst (emit s rt events (Rejected reason) w) =
        (if suppressErrors s then Resolved () else Rejected reason)"
    by (rule emit_rejected [OF assms(2)])
  have 4: "console_warnings (snd (emit s rt events (Rejected reason) w)) =
        (if suppressErrors s \<and> has_console_warn rt
         then console_warnings w @ [''Suppressed error when logging to Betterstack: '' @ js_string reason]
         else console_warnings w)"
    by (simp add: e console_warnings_on_failure)
  from 1 2 3 4 emit_durable_resolved [OF assms] show ?thesis
    by (intro conjI)
qed

theorem emit_failure_keeps_copy_witness:
  "durable sink_durable \<and> filteredEvents sink_durable [event_info] \<noteq> []
   \<and> localStorage (snd (emit sink_durable browser [event_info] (Rejected failure) world_empty)) =
       [(''structured-log-betterstack-sink-5-7'', ''hello'')]
   \<and> fst (emit sink_durable browser [event_info] (Rejected failure) world_empty) = Resolved ()"
proof -
  have f: "filteredEvents sink_durable [event_info] \<noteq> []"
    by (simp add: filteredEvents_sink_durable)
  from emit_failure_keeps_copy [OF durable_sink_durable f, of browser failure world_empty "\<lparr>status = 500\<rparr>"]
  have "localStorage (snd (emit sink_durable browser [event_info] (Rejected failure) world_empty)) =
        setItem (new_storageKey browser) (batch sink_durable browser [event_info]) (localStorage world_empty)"
    and "fst (emit sink_durable browser [event_info] (Rejected failure) world_empty) =
        (if suppressErrors sink_durable then Resolved () else Rejected failure)"
    by blast+
  then show ?thesis
    using f durable_sink_durable suppressErrors_sink_durable
    by (simp add: new_storageKey_browser batch_browser_info world_empty_def)
qed

text \<open>
  The claim C3 as written fails on a store that already holds a batch, where two
  namespaced keys remain, and in a runtime whose console has no \<open>warn\<close>, where no
  notification is written.
\<close>

theorem emit_suppressed_counterexample:
  "durable sink_durable \<and> suppressErrors sink_durable
   \<and> fst (emit sink_durable browser_mute [event_info] (Rejected failure) world_pending) = Resolved ()
   \<and> namespaced_keys (localStorage (snd (emit sink_durable browser_mute [event_info] (Rejected failure) world_pending)))
       = [''structured-log-betterstack-sink-1-1'', ''structured-log-betterstack-sink-5-7'']
   \<and> console_warnings (snd (emit sink_durable browser_mute [event_info] (Rejected failure) world_pending)) = []"
proof -
  have f: "filteredEvents sink_durable [event_info] \<noteq> []"
    by (simp add: filteredEvents_sink_durable)
  have n: "namespaced ''structured-log-betterstack-sink-5-7''"
    by (simp add: namespaced_def indexOf_is_0_def storage_prefix_def)
  have m: "\<not> has_console_warn browser_mute"
    by (simp add: browser_mute_def)
  have s: "suppressErrors sink_durable"
    by (simp add: sink_durable_def)
  show ?thesis
    using emit_durable_rejected [OF durable_sink_durable f, of browser_mute failure world_pending]
    by (simp add: durable_sink_durable s m on_failure_def logSuppressedError_def
        new_storageKey_browser_mute batch_browser_mute_info world_pending_def
        namespaced_keys_def namespaced_pending_key n)
qed

text \<open>
  C3, amended. For every \<open>emit\<close> call that attempts a delivery with durability enabled,
  suppression on and a rejected \<open>fetch\<close>, in a runtime whose console has \<open>warn\<close>: the
  promise of \<open>emit\<close> resolves, the call writes exactly one warning, and its handler
  leaves the store as it is when the \<open>fetch\<close> settles. The key of this batch with its
  payload is the one namespaced key that remains when the store held no namespaced key
  before the call and nothing else changed the store before the \<open>fetch\<close> settled;
  another call in flight adds its own.
\<close>

theorem emit_suppressed_failure:
  assumes "durable s" and "suppressErrors s" and "filteredEvents s events \<noteq> []"
    and "has_console_warn rt"
  shows "fst (emit_with meanwhile s rt events (Rejected reason) w) = Resolved ()
    \<and> console_warnings (snd (emit_with meanwhile s rt events (Rejected reason) w)) =
        console_warnings (meanwhile (snd (sendToServer_begin s rt (filteredEvents s events) w)))
          @ [''Suppressed error when logging to Betterstack: '' @ js_string reason]
    \<and> localStorage (snd (emit_with meanwhile s rt events (Rejected reason) w)) =
        localStorage (meanwhile (snd (sendToServer_begin s rt (filteredEvents s events) w)))
    \<and> localStorage (snd (sendToServer_begin s rt (filteredEvents s events) w)) =
        setItem (new_storageKey rt) (batch s rt events) (localStorage w)
    \<and> (namespaced_keys (localStorage w) = []
         \<and> localStorage (meanwhile (snd (sendToServer_begin s rt (filteredEvents s events) w)))
             = localStorage (snd (sendToServer_begin s rt (filteredEvents s events) w))
         \<longrightarrow> namespaced_keys (localStorage (snd (emit_with meanwhile s rt events (Rejected reason) w)))
               = [new_storageKey rt]
             \<and> getItem (new_storageKey rt)
                 (localStorage (snd (emit_with meanwhile s rt events (Rejected reason) w)))
               = Some (batch s rt events))"
proof -
  let ?k = "new_storageKey rt"
  let ?b = "batch s rt events"
  let ?w1 = "snd (sendToServer_begin s rt (filteredEvents s events) w)"
  have e: "emit_with meanwhile s rt events (Rejected reason) w =
      on_failure s rt reason (meanwhile ?w1)"
    by (rule emit_with_rejected [OF assms(3)])
  have 1: "fst (emit_with meanwhile s rt events (Rejected reason) w) = Resolved ()"
    using assms(2) by (simp add: e fst_on_failure)
  have 2: "console_warnings (snd (emit_with meanwhile s rt events (Rejected reason) w)) =
        console_warnings (meanwhile ?w1)
          @ [''Suppressed error when logging to Betterstack: '' @ js_string reason]"
    using assms(2) assms(4) by (simp add: e console_warnings_on_failure)
  have 3: "localStorage (snd (emit_with meanwhile s rt events (Rejected reason) w)) =
        localStorage (meanwhile ?w1)"
    by (simp add: e localStorage_on_failure)
  have 4: "localStorage ?w1 = setItem ?k ?b (localStorage w)"
    using assms(1) by (simp add: localStorage_begin_durable batch_def)
  have 5: "namespaced_keys (localStorage (snd (emit_with meanwhile s rt events (Rejected reason) w)))
               = [?k]
             \<and> getItem ?k (localStorage (snd (emit_with meanwhile s rt events (Rejected reason) w)))
               = Some ?b"
    if h: "namespaced_keys (localStorage w) = [] \<and> localStorage (meanwhile ?w1) = localStorage ?w1"
  proof -
    have k: "?k \<notin> set (map fst (localStorage w))"
    proof
      assume "?k \<in> set (map fst (localStorage w))"
      then have "?k \<in> set (namespaced_keys (localStorage w))"
        by (simp add: namespaced_keys_def namespaced_new_storageKey)
      with h show False by simp
    qed
    from h have "localStorage (snd (emit_with meanwhile s rt events (Rejected reason) w)) =
        setItem ?k ?b (localStorage w)"
      by (simp add: 3 4)
    with k h show ?thesis
      by (simp add: namespaced_keys_setItem namespaced_new_storageKey getItem_setItem)
  qed
  from 1 2 3 4 5 show ?thesis
    by (intro conjI impI) auto
qed

theorem emit_suppressed_failure_witness:
  "durable sink_durable \<and> suppressErrors sink_durable
   \<and> filteredEvents sink_durable [event_info] \<noteq> [] \<and> has_console_warn browser
   \<and> namespaced_keys (localStorage world_empty) = []
   \<and> fst (emit_with (\<lambda>w. w) sink_durable browser [event_info] (Rejected failure) world_empty)
       = Resolved ()
   \<and> namespaced_keys
        (localStorage (snd (emit_with (\<lambda>w. w) sink_durable browser [event_info] (Rejected failure) world_empty)))
       = [''structured-log-betterstack-sink-5-7'']
   \<and> console_warnings (snd (emit_with (\<lambda>w. w) sink_durable browser [event_info] (Rejected failure) world_empty))
       = [''Suppressed error when logging to Betterstack: TypeError: Failed to fetch'']"
proof -
  have f: "filteredEvents sink_durable [event_info] \<noteq> []"
    by (simp add: filteredEvents_sink_durable)
  have n: "namespaced_keys (localStorage world_empty) = []"
    by (simp add: world_empty_def namespaced_keys_def)
  have c: "has_console_warn browser"
    by (simp add: browser_def)
  have w: "console_warnings (snd (sendToServer_begin sink_durable browser [event_info] world_empty)) = []"
    by (simp add: console_warnings_begin world_empty_def)
  let ?after = "snd (emit_with (\<lambda>w. w) sink_durable browser [event_info] (Rejected failure) world_empty)"
  let ?begun = "snd (sendToServer_begin sink_durable browser (filteredEvents sink_durable [event_info]) world_empty)"
  from emit_suppressed_failure [OF durable_sink_durable suppressErrors_sink_durable f c,
      of "\<lambda>w. w" failure world_empty]
  have 1: "fst (emit_with (\<lambda>w. w) sink_durable browser [event_info] (Rejected failure) world_empty)
       = Resolved ()"
    and 2: "console_warnings ?after =
        console_warnings ?begun @ [''Suppressed error when logging to Betterstack: '' @ js_string failure]"
    and 3: "namespaced_keys (localStorage world_empty) = [] \<and> localStorage ?begun = localStorage ?begun
         \<longrightarrow> namespaced_keys (localStorage ?after) = [new_storageKey browser]
             \<and> getItem (new_storageKey browser) (localStorage ?after)
               = Some (batch sink_durable browser [event_info])"
    by blast+
  from 3 n have 4: "namespaced_keys (localStorage ?after) = [''structured-log-betterstack-sink-5-7'']"
    by (simp add: new_storageKey_browser)
  from 2 w have 5: "console_warnings ?after =
       [''Suppressed error when logging to Betterstack: TypeError: Failed to fetch'']"
    by (simp add: filteredEvents_sink_durable failure_def)
  from durable_sink_durable suppressErrors_sink_durable f c n 1 4 5 show ?thesis
    by (intro conjI)
qed

text \<open>
  C4. With \<open>suppressErrors\<close> false, an \<open>emit\<close> call whose delivery fails returns a
  promise that rejects with the reason the promise of \<open>fetch\<close> rejected with, as it is;
  no warning is written.
\<close>

theorem emit_rejects_with_reason:
  assumes "\<not> suppressErrors s" and "filteredEvents s events \<noteq> []"
  shows "emit s rt events (Rejected reason) w =
      (Rejected reason, snd (sendToServer_begin s rt (filteredEvents s events) w))
    \<and> fst (emit s rt events (Rejected reason) w) = Rejected reason
    \<and> console_warnings (snd (emit s rt events (Rejected reason) w)) = console_warnings w"
  using assms
  by (simp add: emit_rejected_world on_failure_def console_warnings_begin)

theorem emit_rejects_with_reason_witness:
  "\<not> suppressErrors sink_loud \<and> filteredEvents sink_loud [event_info] \<noteq> []
   \<and> fst (emit sink_loud browser [event_info] (Rejected failure) world_empty) = Rejected failure"
proof -
  have f: "filteredEvents sink_loud [event_info] \<noteq> []"
    by (simp add: filteredEvents_sink_loud)
  have s: "\<not> suppressErrors sink_loud"
    by (simp add: sink_loud_def)
  from emit_rejects_with_reason [OF s f, of browser failure world_empty] s f
  show ?thesis
    by blast
qed

section \<open>Requests issued and the sink over its life\<close>

lemma fetched_on_failure: "fetched (snd (on_failure s rt reason w)) = fetched w"
  by (simp add: on_failure_def logSuppressedError_def)

lemma fetched_settle: "fetched (snd (sendToServer_settle s rt key fetch_result w)) = fetched w"
proof (cases fetch_result)
  case (Resolved r)
  then show ?thesis
    by (cases key) (simp_all add: settle_resolved settle_resolved_plain)
next
  case (Rejected reason)
  then show ?thesis
    by (simp add: settle_rejected fetched_on_failure)
qed

lemma fetched_begin:
  "fetched (snd (sendToServer_begin s rt evs w)) =
     fetched w @ [post_request s (Some (JSON_stringify rt (map translate evs)))]"
  by (simp add: sendToServer_begin_def sendToServer_effects_def Let_def)

lemma fetched_emit:
  assumes "filteredEvents s events \<noteq> []"
  shows "fetched (snd (emit s rt events fetch_result w)) =
     fetched w @ [post_request s (Some (batch s rt events))]"
proof -
  obtain key w1 where b: "sendToServer_begin s rt (filteredEvents s events) w = (key, w1)"
    by (cases "sendToServer_begin s rt (filteredEvents s events) w")
  with fetched_begin [of s rt "filteredEvents s events" w]
  have "fetched w1 = fetched w @ [post_request s (Some (batch s rt events))]"
    by (simp add: batch_def)
  with assms b show ?thesis
    by (simp add: emit_def sendToServer_def sendToServer_with_def fetched_settle)
qed

lemma run_keeps_sink: "fst (run (s, w) calls) = s"
proof -
  have "fst (foldl perform sw calls) = fst sw" for sw
  proof (induction calls arbitrary: sw)
    case Nil
    then show ?case by simp
  next
    case (Cons c calls)
    have "fst (perform sw c) = fst sw"
      by (cases sw; cases c) simp_all
    with Cons.IH [of "perform sw c"] show ?case by simp
  qed
  from this [of "(s, w)"] show ?thesis
    by (simp add: run_def)
qed

lemma namespaced_keys_member:
  "(k, v) \<in> set st \<Longrightarrow> k \<in> set (namespaced_keys st) \<longleftrightarrow> namespaced k"
  by (force simp: namespaced_keys_def)

lemma constructor_loud_three:
  "BetterStackSink_new browser (Some options_loud) world_three =
     Inr (sink_loud,
          [''structured-log-betterstack-sink-1-1'', ''structured-log-betterstack-sink-2-2''],
          world_three\<lparr>fetched := [post_request sink_loud (Some ''a''), post_request sink_loud (Some ''b'')]\<rparr>)"
  by (simp add: BetterStackSink_new_def Let_def browser_def options_durable_def options_loud_def
      world_three_def sink_durable_def sink_loud_def read_prop_def replay_loop_eq
      namespaced_def indexOf_is_0_def storage_prefix_def getItem_def)

section \<open>Replay at construction\<close>

text \<open>
  C5. When the constructed sink is durable, the constructor has issued one request for
  every entry of the store whose key starts with the prefix of the sink, in the order of
  the store, with the stored text as body, and has left the store as it was. The promise
  kept for an entry resolves through the completion callback to the key of that entry,
  and its handler then removes this key. A rejected \<open>fetch\<close> leaves the entry in
  place and goes to the suppression policy. Each entry is settled by the outcome of its
  own request only: in whatever order the promises settle, the entries removed are the
  namespaced ones whose request was answered, and the promise of an entry resolves or
  rejects whatever happened to the others.
\<close>

theorem constructor_replays_pending:
  assumes "BetterStackSink_new rt options w = Inr (s, requests, w')" and "durable s"
  shows "requests = namespaced_keys (localStorage w)
    \<and> w' = w\<lparr>fetched := fetched w @
               map (\<lambda>k. post_request s (getItem k (localStorage w))) (namespaced_keys (localStorage w))\<rparr>
    \<and> sendRecord_promise (Some (\<lambda>_. k)) (Resolved r) = Resolved (Done k)
    \<and> replay_settle s rt' k (Resolved r) w0 =
        (Resolved (), w0\<lparr>localStorage := removeItem k (localStorage w0)\<rparr>)
    \<and> replay_settle s rt' k (Rejected reason) w0 = on_failure s rt' reason w0
    \<and> localStorage (snd (on_failure s rt' reason w0)) = localStorage w0
    \<and> (set ks = set requests \<longrightarrow>
         localStorage (snd (replay_settle_all s rt' net ks w')) =
           filter (\<lambda>(k, v). \<not> (namespaced k \<and> (\<exists>r. net k = Resolved r))) (localStorage w))
    \<and> fst (replay_settle_all s rt' net requests w') =
        map (\<lambda>k. (k, case net k of Resolved r \<Rightarrow> Resolved ()
                    | Rejected reason \<Rightarrow> if suppressErrors s then Resolved () else Rejected reason))
          requests"
proof -
  from constructor_durable [OF assms]
  have l: "(requests, w') = replay_loop s 0 [] w" .
  then have 1: "requests = namespaced_keys (localStorage w)"
    and 2: "w' = w\<lparr>fetched := fetched w @
               map (\<lambda>k. post_request s (getItem k (localStorage w))) (namespaced_keys (localStorage w))\<rparr>"
    by (simp_all add: replay_loop_eq namespaced_keys_def)
  have 3: "sendRecord_promise (Some (\<lambda>_. k)) (Resolved r) = Resolved (Done k)"
    by (simp add: sendRecord_promise_def)
  have st: "localStorage w' = localStorage w"
    by (subst 2) simp
  have 7: "localStorage (snd (replay_settle_all s rt' net ks w')) =
           filter (\<lambda>(k, v). \<not> (namespaced k \<and> (\<exists>r. net k = Resolved r))) (localStorage w)"
    if "set ks = set requests"
  proof -
    have "filter (\<lambda>(k, v). \<not> (k \<in> set ks \<and> (\<exists>r. net k = Resolved r))) (localStorage w) =
          filter (\<lambda>(k, v). \<not> (namespaced k \<and> (\<exists>r. net k = Resolved r))) (localStorage w)"
      using that 1 by (intro filter_cong refl) (auto simp: namespaced_keys_member)
    then show ?thesis
      by (simp add: localStorage_replay_settle_all st)
  qed
  from 1 2 3 7 show ?thesis
    by (simp add: replay_settle_resolved replay_settle_rejected localStorage_on_failure
        fst_replay_settle_all)
qed

theorem constructor_replays_pending_witness:
  "BetterStackSink_new browser (Some options_loud) world_three =
     Inr (sink_loud,
          [''structured-log-betterstack-sink-1-1'', ''structured-log-betterstack-sink-2-2''],
          world_three\<lparr>fetched := [post_request sink_loud (Some ''a''), post_request sink_loud (Some ''b'')]\<rparr>)
   \<and> durable sink_loud
   \<and> localStorage (snd (replay_settle_all sink_loud browser net_first_fails
        [''structured-log-betterstack-sink-1-1'', ''structured-log-betterstack-sink-2-2'']
        (world_three\<lparr>fetched := [post_request sink_loud (Some ''a''), post_request sink_loud (Some ''b'')]\<rparr>)))
      = [(''structured-log-betterstack-sink-1-1'', ''a''), (''theme'', ''dark'')]
   \<and> fst (replay_settle_all sink_loud browser net_first_fails
        [''structured-log-betterstack-sink-1-1'', ''structured-log-betterstack-sink-2-2'']
        (world_three\<lparr>fetched := [post_request sink_loud (Some ''a''), post_request sink_loud (Some ''b'')]\<rparr>))
      = [(''structured-log-betterstack-sink-1-1'', Rejected failure),
         (''structured-log-betterstack-sink-2-2'', Resolved ())]"
proof -
  have d: "durable sink_loud"
    by (simp add: sink_loud_def sink_durable_def)
  have q: "\<not> suppressErrors sink_loud"
    by (simp add: sink_loud_def)
  have n: "namespaced ''structured-log-betterstack-sink-2-2''" "\<not> namespaced ''theme''"
    by (simp_all add: namespaced_def indexOf_is_0_def storage_prefix_def)
  from constructor_replays_pending [OF constructor_loud_three d,
      of _ _ browser _ _
         "[''structured-log-betterstack-sink-1-1'', ''structured-log-betterstack-sink-2-2'']"
         net_first_fails]
  have "localStorage (snd (replay_settle_all sink_loud browser net_first_fails
        [''structured-log-betterstack-sink-1-1'', ''structured-log-betterstack-sink-2-2'']
        (world_three\<lparr>fetched := [post_request sink_loud (Some ''a''), post_request sink_loud (Some ''b'')]\<rparr>)))
      = filter (\<lambda>(k, v). \<not> (namespaced k \<and> (\<exists>r. net_first_fails k = Resolved r))) (localStorage world_three)"
    and "fst (replay_settle_all sink_loud browser net_first_fails
        [''structured-log-betterstack-sink-1-1'', ''structured-log-betterstack-sink-2-2'']
        (world_three\<lparr>fetched := [post_request sink_loud (Some ''a''), post_request sink_loud (Some ''b'')]\<rparr>))
      = map (\<lambda>k. (k, case net_first_fails k of Resolved r \<Rightarrow> Resolved ()
                    | Rejected reason \<Rightarrow> if suppressErrors sink_loud then Resolved () else Rejected reason))
          [''structured-log-betterstack-sink-1-1'', ''structured-log-betterstack-sink-2-2'']"
    by blast+
  then show ?thesis
    using constructor_loud_three d q n
    by (simp add: world_three_def net_first_fails_def namespaced_pending_key)
qed

section \<open>The level filter\<close>

text \<open>
  C10. The constructor sets \<open>levelSwitch\<close> to null and no call on the sink changes
  it, so after any sequence of calls the sink still has no level filter: \<open>emit\<close>
  retains every event of its input, and for a non-empty input issues one request whose
  body is the serialisation of the translations of all of them, in order. Only the empty
  input leads to no request; \<open>emit\<close> then resolves at once and changes nothing.
\<close>

theorem levelSwitch_never_set:
  assumes "BetterStackSink_new rt0 options w0 = Inr (s0, requests, w1)"
    and "run (s0, w1) calls = (s, w)"
  shows "levelSwitch s = None
    \<and> filteredEvents s events = events
    \<and> (events \<noteq> [] \<longrightarrow>
         fetched (snd (emit s rt events fetch_result w)) =
           fetched w @ [post_request s (Some (JSON_stringify rt (map translate events)))])
    \<and> (events = [] \<longrightarrow> emit s rt events fetch_result w = (Resolved (), w))"
proof -
  from run_keeps_sink [of s0 w1 calls] assms(2) have "s = s0"
    by simp
  with constructor_fields [OF assms(1)] have l: "levelSwitch s = None"
    by auto
  then have f: "filteredEvents s events = events"
    by (simp add: filteredEvents_def)
  have "fetched (snd (emit s rt events fetch_result w)) =
           fetched w @ [post_request s (Some (JSON_stringify rt (map translate events)))]"
    if "events \<noteq> []"
    using that f fetched_emit [of s events rt fetch_result w] by (simp add: batch_def)
  moreover have "emit s rt events fetch_result w = (Resolved (), w)" if "events = []"
    using that f by (simp add: emit_def)
  ultimately show ?thesis
    using l f by blast
qed

theorem levelSwitch_never_set_witness:
  "BetterStackSink_new browser (Some options_durable) world_empty = Inr (sink_durable, [], world_empty)
   \<and> run (sink_durable, world_empty) [Flush, ToString] = (sink_durable, world_empty)
   \<and> levelSwitch sink_durable = None
   \<and> fetched (snd (emit sink_durable browser [event_info, event_odd] (Resolved \<lparr>status = 200\<rparr>) world_empty))
       = [post_request sink_durable (Some ''helloodd'')]
   \<and> emit sink_durable browser [] (Resolved \<lparr>status = 200\<rparr>) world_empty = (Resolved (), world_empty)"
proof -
  have r: "run (sink_durable, world_empty) [Flush, ToString] = (sink_durable, world_empty)"
    by (simp add: run_def flush_def)
  have j: "JSON_stringify browser [translate event_info, translate event_odd] = ''helloodd''"
    by (simp add: browser_def translate_def event_info_def event_odd_def)
  from levelSwitch_never_set [OF constructor_browser_durable r, of "[event_info, event_odd]" browser "Resolved \<lparr>status = 200\<rparr>"]
    levelSwitch_never_set [OF constructor_browser_durable r, of "[]" browser "Resolved \<lparr>status = 200\<rparr>"]
  show ?thesis
    using constructor_browser_durable r
    by (simp add: j world_empty_def)
qed

end
